theory Spec2Isabelle
  imports Main "HOL-Library.Char_ord" "HOL-Library.List_Lexorder"
begin

section \<open>Python strings and decimal digits\<close>

text \<open>
  A Python \<open>str\<close> is modelled as a \<^typ>\<open>string\<close>: a list of code points below 256.
  On that range the regular-expression class \<open>\d\<close> is exactly \<open>[0-9]\<close>.
  Strings are compared as Python compares them: lexicographically by code point
  (the order of \<open>List_Lexorder\<close> over \<open>Char_ord\<close>).
\<close>

definition one_of :: "string \<Rightarrow> char \<Rightarrow> bool" where
  "one_of cs c = (c \<in> set cs)"

definition is_digit :: "char \<Rightarrow> bool" where
  "is_digit = one_of ''0123456789''"

definition digit_val :: "char \<Rightarrow> nat" where
  "digit_val c = of_char c - 48"

definition digit_char :: "nat \<Rightarrow> char" where
  "digit_char n = ''0123456789'' ! n"

text \<open>\<open>int(s)\<close> on a matched group: surrounding blanks are stripped, then base 10.\<close>

definition py_int :: "string \<Rightarrow> nat" where
  "py_int s = foldl (\<lambda>a c. 10 * a + digit_val c) 0 (filter (\<lambda>c. c \<noteq> CHR '' '') s)"

definition pad2 :: "nat \<Rightarrow> string" where
  "pad2 n = [digit_char (n div 10 mod 10), digit_char (n mod 10)]"

definition pad4 :: "nat \<Rightarrow> string" where
  "pad4 n = pad2 (n div 100) @ pad2 (n mod 100)"

section \<open>\<open>datetime.strptime\<close> and \<open>strftime\<close> for the two formats of the program\<close>

text \<open>
  The directives used by the program, with the regular expressions CPython's
  \<open>_strptime.TimeRE\<close> gives them:
  \<open>%m\<close> is \<open>1[0-2]|0[1-9]|[1-9]\<close>,
  \<open>%d\<close> is \<open>3[0-1]|[1-2]\d|0[1-9]|[1-9]| [1-9]\<close>,
  \<open>%y\<close> is \<open>\d\d\<close>, \<open>%Y\<close> is \<open>\d\d\d\d\<close>; any other character of the format
  matches itself. An alternative is a sequence of character classes.
\<close>

datatype directive = Dir_m | Dir_d | Dir_y | Dir_Y | Lit char

fun regex_of :: "directive \<Rightarrow> (char \<Rightarrow> bool) list list" where
  "regex_of Dir_m =
     [[one_of ''1'', one_of ''012''], [one_of ''0'', one_of ''123456789''], [one_of ''123456789'']]"
| "regex_of Dir_d =
     [[one_of ''3'', one_of ''01''], [one_of ''12'', is_digit], [one_of ''0'', one_of ''123456789''],
      [one_of ''123456789''], [one_of '' '', one_of ''123456789'']]"
| "regex_of Dir_y = [[is_digit, is_digit]]"
| "regex_of Dir_Y = [[is_digit, is_digit, is_digit, is_digit]]"
| "regex_of (Lit c) = [[\<lambda>x. x = c]]"

text \<open>One alternative against the front of the text: the matched text and the rest.\<close>

fun match_cls :: "(char \<Rightarrow> bool) list \<Rightarrow> string \<Rightarrow> (string \<times> string) option" where
  "match_cls [] s = Some ([], s)"
| "match_cls (p # ps) [] = None"
| "match_cls (p # ps) (c # s) =
     (if p c then map_option (\<lambda>(t, r). (c # t, r)) (match_cls ps s) else None)"

text \<open>The alternatives that match, in the order the backtracking matcher tries them.\<close>

definition match_alts :: "(char \<Rightarrow> bool) list list \<Rightarrow> string \<Rightarrow> (string \<times> string) list" where
  "match_alts alts s = List.map_filter (\<lambda>ps. match_cls ps s) alts"

text \<open>
  All matches of the whole format at the start of the text, in backtracking order, each
  with the text found for every directive; \<open>re.match\<close> returns the first.
\<close>

fun match_format :: "directive list \<Rightarrow> string \<Rightarrow> ((directive \<times> string) list \<times> string) list" where
  "match_format [] s = [([], s)]"
| "match_format (d # ds) s =
     concat (map (\<lambda>(t, r). map (\<lambda>(found, r'). ((d, t) # found, r')) (match_format ds r))
                 (match_alts (regex_of d) s))"

text \<open>A date as \<open>(year, month, day)\<close>; the time fields of the \<open>datetime\<close> stay zero.\<close>

type_synonym ymd = "nat \<times> nat \<times> nat"

text \<open>The loop of \<open>_strptime\<close> over the groups found; \<open>%y\<close> pivots at 68 (POSIX).\<close>

fun convert_group :: "directive \<times> string \<Rightarrow> ymd \<Rightarrow> ymd" where
  "convert_group (Dir_y, t) (y, m, d) =
     (let year = py_int t in (if year \<le> 68 then year + 2000 else year + 1900, m, d))"
| "convert_group (Dir_Y, t) (y, m, d) = (py_int t, m, d)"
| "convert_group (Dir_m, t) (y, m, d) = (y, py_int t, d)"
| "convert_group (Dir_d, t) (y, m, d) = (y, m, py_int t)"
| "convert_group (Lit c, t) (y, m, d) = (y, m, d)"

definition is_leap :: "nat \<Rightarrow> bool" where
  "is_leap year = (year mod 4 = 0 \<and> (year mod 100 \<noteq> 0 \<or> year mod 400 = 0))"

definition days_in_month :: "nat \<Rightarrow> nat \<Rightarrow> nat" where
  "days_in_month year month =
     (if month = 2 \<and> is_leap year then 29
      else [0, 31, 28, 31, 30, 31, 30, 31, 31, 30, 31, 30, 31] ! month)"

text \<open>The checks of the \<open>date\<close> constructor (\<open>MINYEAR = 1\<close>, \<open>MAXYEAR = 9999\<close>).\<close>

definition check_date_fields :: "ymd \<Rightarrow> bool" where
  "check_date_fields t =
     (case t of (year, month, day) \<Rightarrow>
        1 \<le> year \<and> year \<le> 9999 \<and> 1 \<le> month \<and> month \<le> 12 \<and>
        1 \<le> day \<and> day \<le> days_in_month year month)"

text \<open>
  \<open>datetime.strptime(s, fmt)\<close>; \<open>None\<close> stands for the \<open>ValueError\<close> it raises when the
  text does not match the format, when unconverted data remains after the match, or
  when the fields are not a date of the calendar.
\<close>

definition strptime :: "string \<Rightarrow> directive list \<Rightarrow> ymd option" where
  "strptime s fmt =
     (case match_format fmt s of
        [] \<Rightarrow> None
      | (found, r) # _ \<Rightarrow>
          if r \<noteq> [] then None
          else (let t = fold convert_group found (1900, 1, 1)
                in if check_date_fields t then Some t else None))"

text \<open>
  \<open>strftime\<close>: \<open>%m\<close>, \<open>%d\<close> and \<open>%y\<close> are two digits, zero padded; \<open>%Y\<close> is written with
  four digits, which is what every platform prints for the years from 1000 on.
\<close>

fun format_directive :: "ymd \<Rightarrow> directive \<Rightarrow> string" where
  "format_directive (y, m, d) Dir_m = pad2 m"
| "format_directive (y, m, d) Dir_d = pad2 d"
| "format_directive (y, m, d) Dir_y = pad2 (y mod 100)"
| "format_directive (y, m, d) Dir_Y = pad4 y"
| "format_directive (y, m, d) (Lit c) = [c]"

definition strftime :: "ymd \<Rightarrow> directive list \<Rightarrow> string" where
  "strftime t fmt = concat (map (format_directive t) fmt)"

text \<open>The format strings \<open>"%m-%d-%y"\<close> and \<open>"%Y-%m-%d"\<close>.\<close>

definition fmt_mdy :: "directive list" where
  "fmt_mdy = [Dir_m, Lit (CHR ''-''), Dir_d, Lit (CHR ''-''), Dir_y]"

definition fmt_iso :: "directive list" where
  "fmt_iso = [Dir_Y, Lit (CHR ''-''), Dir_m, Lit (CHR ''-''), Dir_d]"

section \<open>The date helpers of \<open>PTOManager\<close>\<close>

definition validate_date :: "string \<Rightarrow> string option" where
  "validate_date date_str =
     (case strptime date_str fmt_mdy of
        Some date_obj \<Rightarrow> Some (strftime date_obj fmt_iso)
      | None \<Rightarrow> None)"

definition format_date_for_display :: "string \<Rightarrow> string" where
  "format_date_for_display iso_date =
     (case strptime iso_date fmt_iso of
        Some date_obj \<Rightarrow> strftime date_obj fmt_mdy
      | None \<Rightarrow> iso_date)"

section \<open>The spellings of a date and the order of dates\<close>





section \<open>The document held by \<open>PTOManager\<close>\<close>

text \<open>
  \<open>self.data\<close> is a dictionary with the three keys of the default structure; each entry
  of \<open>pto_requests\<close> is a dictionary with the four keys \<open>add_pto_request\<close> gives it
  (the key \<open>note\<close> is the field \<open>note_text\<close>, \<open>note\<close> being a word of the proof language).
  Hours are Python integers. (The graphical front end passes the yearly allowance as a
  float; floating point is outside this model, the allowance is an integer here.)
\<close>

record request =
  date :: string
  is_half_day :: bool
  hours :: int
  note_text :: string

record ledger =
  yearly_pto_hours :: int
  used_pto_hours :: int
  pto_requests :: "request list"

text \<open>
  The file at \<open>self.data_file\<close>: absent, present with bytes that the text codec of
  \<open>open\<close> cannot decode, or present with a text.
\<close>

datatype storage = Absent | Undecodable | Text string

record manager =
  data :: ledger
  data_file :: storage

text \<open>
  The lines the operations and \<open>_load_data\<close> print; dates are shown in display format.
\<close>

datatype message =
    Invalid_date_format
  | Invalid_lookup_date_format
  | Invalid_new_date_format
  | Already_exists string
  | Added string
  | Updated string
  | Removed string
  | No_request_found string
  | Yearly_hours_set int
  | Error_reading

text \<open>The error kinds of the specification, as a reading of the messages.\<close>

datatype error_kind = InvalidDate | DuplicateDate | NotFound | CorruptStorage

fun error_of :: "message \<Rightarrow> error_kind option" where
  "error_of Invalid_date_format = Some InvalidDate"
| "error_of Invalid_lookup_date_format = Some InvalidDate"
| "error_of Invalid_new_date_format = Some InvalidDate"
| "error_of (Already_exists d) = Some DuplicateDate"
| "error_of (No_request_found d) = Some NotFound"
| "error_of (Added d) = None"
| "error_of (Updated d) = None"
| "error_of (Removed d) = None"
| "error_of (Yearly_hours_set h) = None"
| "error_of Error_reading = Some CorruptStorage"

section \<open>\<open>json.dump(self.data, f, indent=2)\<close>\<close>

text \<open>\<open>repr\<close> of a Python integer.\<close>

fun digits_of :: "nat \<Rightarrow> string" where
  "digits_of n = (if n < 10 then [digit_char n] else digits_of (n div 10) @ [digit_char (n mod 10)])"

declare digits_of.simps [simp del]

definition int_repr :: "int \<Rightarrow> string" where
  "int_repr i = (if i < 0 then CHR ''-'' # digits_of (nat (- i)) else digits_of (nat i))"

text \<open>
  \<open>py_encode_basestring_ascii\<close> (\<open>ensure_ascii\<close> is on by default): the printable ASCII
  characters other than the quote and the backslash stand for themselves, seven
  characters have a short escape, every other one is written \<open>\u00XX\<close>.
\<close>

abbreviation backslash :: char where "backslash \<equiv> CHR 0x5C"
abbreviation dquote :: char where "dquote \<equiv> CHR 0x22"

definition hex_digit :: "nat \<Rightarrow> char" where
  "hex_digit n = ''0123456789abcdef'' ! n"

definition escape_char :: "char \<Rightarrow> string" where
  "escape_char c =
     (if c = backslash then [backslash, backslash]
      else if c = dquote then [backslash, dquote]
      else if CHR '' '' \<le> c \<and> c \<le> CHR ''~'' then [c]
      else if c = CHR 0x08 then [backslash, CHR ''b'']
      else if c = CHR 0x0C then [backslash, CHR ''f'']
      else if c = CHR 0x0A then [backslash, CHR ''n'']
      else if c = CHR 0x0D then [backslash, CHR ''r'']
      else if c = CHR 0x09 then [backslash, CHR ''t'']
      else [backslash, CHR ''u'', CHR ''0'', CHR ''0'',
            hex_digit (of_char c div 16), hex_digit (of_char c mod 16)])"

definition encode_basestring_ascii :: "string \<Rightarrow> string" where
  "encode_basestring_ascii s = dquote # concat (map escape_char s) @ [dquote]"

text \<open>
  The text \<open>json.dump\<close> writes for the document with \<open>indent=2\<close>: one member per
  line, indented by two blanks for each level of nesting, a comma before each line
  break between members, \<open>": "\<close> between key and value, the keys encoded as
  strings are and in insertion order, an empty list as \<open>[]\<close>, no line break at the end.
\<close>

definition dumps_request :: "request \<Rightarrow> string" where
  "dumps_request r =
     ''{\<newline>      '' @ encode_basestring_ascii ''date'' @ '': '' @
       encode_basestring_ascii (date r) @
     '',\<newline>      '' @ encode_basestring_ascii ''is_half_day'' @ '': '' @
       (if is_half_day r then ''true'' else ''false'') @
     '',\<newline>      '' @ encode_basestring_ascii ''hours'' @ '': '' @
       int_repr (hours r) @
     '',\<newline>      '' @ encode_basestring_ascii ''note'' @ '': '' @
       encode_basestring_ascii (note_text r) @
     ''\<newline>    }''"

fun dumps_items :: "request list \<Rightarrow> string" where
  "dumps_items [] = []"
| "dumps_items [r] = dumps_request r"
| "dumps_items (r # rs) = dumps_request r @ '',\<newline>    '' @ dumps_items rs"

definition dumps_requests :: "request list \<Rightarrow> string" where
  "dumps_requests rs =
     (if rs = [] then ''[]'' else ''[\<newline>    '' @ dumps_items rs @ ''\<newline>  ]'')"

definition dumps :: "ledger \<Rightarrow> string" where
  "dumps d =
     ''{\<newline>  '' @ encode_basestring_ascii ''yearly_pto_hours'' @ '': '' @
       int_repr (yearly_pto_hours d) @
     '',\<newline>  '' @ encode_basestring_ascii ''used_pto_hours'' @ '': '' @
       int_repr (used_pto_hours d) @
     '',\<newline>  '' @ encode_basestring_ascii ''pto_requests'' @ '': '' @
       dumps_requests (pto_requests d) @
     ''\<newline>}''"

text \<open>
  \<open>_save_data\<close>: the file is opened for writing, which creates or truncates it, and the
  text is written. (A file system that refuses the write is outside the model.)
\<close>

definition save_data :: "manager \<Rightarrow> manager" where
  "save_data self = self\<lparr>data_file := Text (dumps (data self))\<rparr>"

section \<open>The operations of \<open>PTOManager\<close>\<close>

definition set_yearly_pto_hours :: "int \<Rightarrow> manager \<Rightarrow> message \<times> manager" where
  "set_yearly_pto_hours h self =
     (let self = self\<lparr>data := (data self)\<lparr>yearly_pto_hours := h\<rparr>\<rparr>;
          self = save_data self
      in (Yearly_hours_set h, self))"

text \<open>
  The loop \<open>for i, request in enumerate(self.data["pto_requests"])\<close> with its test
  \<open>request["date"] == normalized_date\<close>: the index of the first request of that date.
\<close>

fun find_request :: "string \<Rightarrow> request list \<Rightarrow> nat option" where
  "find_request d [] = None"
| "find_request d (r # rs) =
     (if date r = d then Some 0 else map_option Suc (find_request d rs))"

text \<open>\<open>list.pop(i)\<close> for an index inside the list.\<close>

definition pop :: "nat \<Rightarrow> 'a list \<Rightarrow> 'a list" where
  "pop i xs = take i xs @ drop (Suc i) xs"

text \<open>The truth value Python gives an \<open>Optional[str]\<close>: \<open>None\<close> and \<open>""\<close> are false.\<close>

fun truthy :: "string option \<Rightarrow> bool" where
  "truthy None = False"
| "truthy (Some s) = (s \<noteq> [])"

definition add_pto_request :: "string \<Rightarrow> bool \<Rightarrow> string \<Rightarrow> manager \<Rightarrow> message \<times> manager" where
  "add_pto_request date_str half nt self =
     (let normalized_date = validate_date date_str in
      if \<not> truthy normalized_date then (Invalid_date_format, self)
      else
        let nd = the normalized_date in
        if find_request nd (pto_requests (data self)) \<noteq> None
        then (Already_exists (format_date_for_display nd), self)
        else
          let hrs = (if half then 4 else 8);
              new_request = \<lparr>date = nd, is_half_day = half, hours = hrs, note_text = nt\<rparr>;
              reqs = pto_requests (data self) @ [new_request];
              reqs = sort_key date reqs;
              d = (data self)\<lparr>pto_requests := reqs\<rparr>;
              d = d\<lparr>used_pto_hours := used_pto_hours d + hrs\<rparr>;
              self = save_data (self\<lparr>data := d\<rparr>)
          in (Added (format_date_for_display nd), self))"

definition edit_request ::
    "string option \<Rightarrow> bool option \<Rightarrow> string option \<Rightarrow> request \<Rightarrow> request" where
  "edit_request normalized_new_date half nt request =
     (let request = (case normalized_new_date of
                       Some nn \<Rightarrow> request\<lparr>date := nn\<rparr> | None \<Rightarrow> request);
          request = (case half of
                       Some h \<Rightarrow> request\<lparr>is_half_day := h, hours := (if h then 4 else 8)\<rparr>
                     | None \<Rightarrow> request);
          request = (case nt of Some n \<Rightarrow> request\<lparr>note_text := n\<rparr> | None \<Rightarrow> request)
      in request)"

definition edit_pto_request ::
    "string \<Rightarrow> string option \<Rightarrow> bool option \<Rightarrow> string option \<Rightarrow> manager \<Rightarrow> message \<times> manager" where
  "edit_pto_request date_str new_date half nt self =
     (let normalized_date = validate_date date_str in
      if \<not> truthy normalized_date then (Invalid_lookup_date_format, self)
      else
        let nd = the normalized_date;
            normalized_new_date = (if truthy new_date then validate_date (the new_date) else None)
        in
        if truthy new_date \<and> \<not> truthy normalized_new_date then (Invalid_new_date_format, self)
        else
          case find_request nd (pto_requests (data self)) of
            None \<Rightarrow> (No_request_found (format_date_for_display nd), self)
          | Some i \<Rightarrow>
              let reqs = pto_requests (data self);
                  old_hours = hours (reqs ! i);
                  request = edit_request normalized_new_date half nt (reqs ! i);
                  reqs = reqs[i := request];
                  d = (data self)\<lparr>pto_requests := reqs\<rparr>;
                  d = d\<lparr>used_pto_hours := used_pto_hours d - old_hours + hours request\<rparr>;
                  d = d\<lparr>pto_requests := sort_key date (pto_requests d)\<rparr>;
                  self = save_data (self\<lparr>data := d\<rparr>)
              in (Updated (format_date_for_display nd), self))"

definition remove_pto_request :: "string \<Rightarrow> manager \<Rightarrow> message \<times> manager" where
  "remove_pto_request date_str self =
     (let normalized_date = validate_date date_str in
      if \<not> truthy normalized_date then (Invalid_date_format, self)
      else
        let nd = the normalized_date in
        case find_request nd (pto_requests (data self)) of
          None \<Rightarrow> (No_request_found (format_date_for_display nd), self)
        | Some i \<Rightarrow>
            let reqs = pto_requests (data self);
                d = (data self)\<lparr>used_pto_hours := used_pto_hours (data self) - hours (reqs ! i)\<rparr>;
                d = d\<lparr>pto_requests := pop i reqs\<rparr>;
                self = save_data (self\<lparr>data := d\<rparr>)
            in (Removed (format_date_for_display nd), self))"

text \<open>The default structure of \<open>_load_data\<close>.\<close>

definition default_data :: ledger where
  "default_data = \<lparr>yearly_pto_hours = 0, used_pto_hours = 0, pto_requests = []\<rparr>"

section \<open>Sequences of operations\<close>

datatype op =
    Add string bool string
  | Edit string "string option" "bool option" "string option"
  | Remove string
  | Set_yearly int

fun apply_op :: "op \<Rightarrow> manager \<Rightarrow> message \<times> manager" where
  "apply_op (Add d h n) self = add_pto_request d h n self"
| "apply_op (Edit d nd h n) self = edit_pto_request d nd h n self"
| "apply_op (Remove d) self = remove_pto_request d self"
| "apply_op (Set_yearly h) self = set_yearly_pto_hours h self"

text \<open>The state after a sequence of calls; what a call prints does not stop the next.\<close>

definition run :: "op list \<Rightarrow> manager \<Rightarrow> manager" where
  "run ops self = fold (\<lambda>x m. snd (apply_op x m)) ops self"

text \<open>The invariant of the specification: the running total is the sum over the requests.\<close>

definition balanced :: "ledger \<Rightarrow> bool" where
  "balanced d = (used_pto_hours d = sum_list (map hours (pto_requests d)))"

definition date_sorted :: "manager \<Rightarrow> bool" where
  "date_sorted self = sorted (map date (pto_requests (data self)))"

text \<open>A ledger with two requests, for the concrete instances below.\<close>

definition jan15 :: request where
  "jan15 = \<lparr>date = ''2024-01-15'', is_half_day = False, hours = 8, note_text = []\<rparr>"

definition jan16 :: request where
  "jan16 = \<lparr>date = ''2024-01-16'', is_half_day = True, hours = 4, note_text = ''dentist''\<rparr>"

definition two_days :: manager where
  "two_days =
     \<lparr>data = \<lparr>yearly_pto_hours = 80, used_pto_hours = 12, pto_requests = [jan15, jan16]\<rparr>,
      data_file = Absent\<rparr>"

section \<open>\<open>json.load(f)\<close>\<close>

text \<open>
  The values \<open>json.load\<close> builds: \<open>None\<close>, a \<open>bool\<close>, an \<open>int\<close>, a \<open>float\<close>, a
  \<open>str\<close>, a \<open>list\<close>, a \<open>dict\<close>. A string is the list of its code points, since an
  escape \<open>\uXXXX\<close> of the text can name any code point, also one that no \<open>char\<close> of
  the theory has. A \<open>dict\<close> is the list of its items in insertion order, the keys
  distinct. Floating point is outside the model: a \<open>float\<close> is carried as the text of
  the number it was read from and is never computed with.
\<close>

datatype json =
    JNull
  | JBool bool
  | JInt int
  | JFloat string
  | JStr "nat list"
  | JArr "json list"
  | JObj "(nat list \<times> json) list"

text \<open>
  The dictionary a ledger stands for, and the dictionary of a request: the code of the
  operations reads and writes \<open>self.data\<close> under these keys, in this order of insertion
  (the order of the default structure and of the literal in \<open>add_pto_request\<close>).
\<close>

definition codes :: "string \<Rightarrow> nat list" where
  "codes s = map of_char s"



subsection \<open>Strings\<close>

text \<open>
  \<open>json.decoder\<close>: white space is blank, tab, line feed and carriage return.
  \<open>scanstring\<close> reads the text after an opening quote up to the closing one and returns
  the string and the text after the quote: a backslash starts one of eight short escapes
  or \<open>\u\<close> with four hexadecimal digits, a high surrogate followed at once by an escaped
  low surrogate is one code point, and a character below \<open>0x20\<close> is refused
  (\<open>strict\<close> is on). \<open>None\<close> is \<open>JSONDecodeError\<close>.
\<close>

definition is_ws :: "char \<Rightarrow> bool" where
  "is_ws c = (c = CHR '' '' \<or> c = CHR 0x09 \<or> c = CHR 0x0A \<or> c = CHR 0x0D)"

definition skip_ws :: "string \<Rightarrow> string" where
  "skip_ws s = dropWhile is_ws s"

definition hex_val :: "char \<Rightarrow> nat option" where
  "hex_val c =
     (if is_digit c then Some (digit_val c)
      else if one_of ''abcdef'' c then Some (of_char c - 87)
      else if one_of ''ABCDEF'' c then Some (of_char c - 55)
      else None)"

fun decode_uXXXX :: "string \<Rightarrow> nat option" where
  "decode_uXXXX [a, b, c, d] =
     (case (hex_val a, hex_val b, hex_val c, hex_val d) of
        (Some h3, Some h2, Some h1, Some h0) \<Rightarrow> Some (((h3 * 16 + h2) * 16 + h1) * 16 + h0)
      | _ \<Rightarrow> None)"
| "decode_uXXXX _ = None"

definition backslash_table :: "char \<Rightarrow> nat option" where
  "backslash_table e =
     (if e = dquote then Some 0x22
      else if e = backslash then Some 0x5C
      else if e = CHR ''/'' then Some 0x2F
      else if e = CHR ''b'' then Some 0x08
      else if e = CHR ''f'' then Some 0x0C
      else if e = CHR ''n'' then Some 0x0A
      else if e = CHR ''r'' then Some 0x0D
      else if e = CHR ''t'' then Some 0x09
      else None)"

definition cons_char :: "nat \<Rightarrow> (nat list \<times> string) option \<Rightarrow> (nat list \<times> string) option" where
  "cons_char u res = map_option (\<lambda>(t, r). (u # t, r)) res"

function scanstring :: "string \<Rightarrow> (nat list \<times> string) option" where
  "scanstring [] = None"
| "scanstring (c # r) =
     (if c = dquote then Some ([], r)
      else if c = backslash then
        (case r of
           [] \<Rightarrow> None
         | e # r1 \<Rightarrow>
             if e = CHR ''u'' then
               (case decode_uXXXX (take 4 r1) of
                  None \<Rightarrow> None
                | Some uni \<Rightarrow>
                    let r2 = drop 4 r1 in
                    if 0xD800 \<le> uni \<and> uni \<le> 0xDBFF \<and> take 2 r2 = [backslash, CHR ''u''] then
                      (case decode_uXXXX (take 4 (drop 2 r2)) of
                         None \<Rightarrow> None
                       | Some uni2 \<Rightarrow>
                           if 0xDC00 \<le> uni2 \<and> uni2 \<le> 0xDFFF
                           then cons_char (0x10000 + ((uni - 0xD800) * 1024 + (uni2 - 0xDC00)))
                                  (scanstring (drop 6 r2))
                           else cons_char uni (scanstring r2))
                    else cons_char uni (scanstring r2))
             else
               (case backslash_table e of
                  None \<Rightarrow> None
                | Some ch \<Rightarrow> cons_char ch (scanstring r1)))
      else if (of_char c :: nat) < 0x20 then None
      else cons_char (of_char c) (scanstring r))"
  by pat_completeness auto
termination
  by (relation "measure length") auto

subsection \<open>Numbers\<close>

text \<open>
  \<open>NUMBER_RE\<close> is \<open>(-?(?:0|[1-9]\d*))(\.\d+)?([eE][-+]?\d+)?\<close>: the three groups are read
  greedily one after the other, the second and the third may be absent. A match
  without fraction and exponent is an \<open>int\<close>.
\<close>

definition int_part :: "string \<Rightarrow> (string \<times> string) option" where
  "int_part s =
     (let (sign, s1) = (case s of
                          c # r \<Rightarrow> if c = CHR ''-'' then ([c], r) else ([], s)
                        | [] \<Rightarrow> ([], s))
      in case s1 of
           [] \<Rightarrow> None
         | c # r \<Rightarrow>
             if c = CHR ''0'' then Some (sign @ [c], r)
             else if one_of ''123456789'' c
             then Some (sign @ c # takeWhile is_digit r, dropWhile is_digit r)
             else None)"

definition frac_part :: "string \<Rightarrow> string \<times> string" where
  "frac_part s =
     (case s of
        p # d # r \<Rightarrow>
          if p = CHR ''.'' \<and> is_digit d
          then (p # d # takeWhile is_digit r, dropWhile is_digit r)
          else ([], s)
      | _ \<Rightarrow> ([], s))"

definition exp_part :: "string \<Rightarrow> string \<times> string" where
  "exp_part s =
     (case s of
        e # r \<Rightarrow>
          if one_of ''eE'' e then
            (let (sg, r') = (case r of
                               g # t \<Rightarrow> if one_of ''-+'' g then ([g], t) else ([], r)
                             | [] \<Rightarrow> ([], r))
             in case r' of
                  d # t \<Rightarrow>
                    if is_digit d
                    then (e # sg @ d # takeWhile is_digit t, dropWhile is_digit t)
                    else ([], s)
                | [] \<Rightarrow> ([], s))
          else ([], s)
      | [] \<Rightarrow> ([], s))"

definition int_of_text :: "string \<Rightarrow> int" where
  "int_of_text t =
     (case t of
        c # r \<Rightarrow> if c = CHR ''-'' then - int (py_int r) else int (py_int t)
      | [] \<Rightarrow> 0)"

definition match_number :: "string \<Rightarrow> (json \<times> string) option" where
  "match_number s =
     (case int_part s of
        None \<Rightarrow> None
      | Some (integer, r1) \<Rightarrow>
          let (frac, r2) = frac_part r1;
              (exp, r3) = exp_part r2
          in if frac = [] \<and> exp = []
             then Some (JInt (int_of_text integer), r3)
             else Some (JFloat (integer @ frac @ exp), r3))"

subsection \<open>Values\<close>

text \<open>
  \<open>dict(pairs)\<close>: a key that comes again keeps its place and takes the later value.
\<close>

fun dict_set :: "(nat list \<times> json) list \<Rightarrow> nat list \<Rightarrow> json \<Rightarrow> (nat list \<times> json) list" where
  "dict_set [] k v = [(k, v)]"
| "dict_set ((k', v') # d) k v = (if k' = k then (k, v) # d else (k', v') # dict_set d k v)"

definition py_dict :: "(nat list \<times> json) list \<Rightarrow> (nat list \<times> json) list" where
  "py_dict pairs = foldl (\<lambda>d (k, v). dict_set d k v) [] pairs"

text \<open>
  What is left of the text after a string, and after white space, is shorter: the
  recursion of the scanner below ends.
\<close>

lemma scanstring_shorter: "scanstring s = Some (t, r) \<Longrightarrow> length r < length s"
proof (induction "length s" arbitrary: s t r rule: less_induct)
  case less
  show ?case
  proof (cases s)
    case Nil
    with less.prems show ?thesis by simp
  next
    case (Cons c r')
    have IH: "length r'' < length u" if "scanstring u = Some (t', r'')" "length u \<le> length r'"
      for u t' r''
      using less.hyps [of u t' r''] that Cons by simp
    from less.prems show ?thesis
      unfolding Cons
      by (auto simp: cons_char_def Let_def split: if_splits option.splits list.splits
          dest!: IH)
  qed
qed

lemma skip_ws_le: "length (skip_ws s) \<le> length s"
  by (simp add: skip_ws_def length_dropWhile_le)

lemma skip_ws_Cons: "skip_ws s = c # r \<Longrightarrow> length r < length s"
  using skip_ws_le [of s] by simp

text \<open>
  \<open>scan_once\<close> reads one value at the start of the text and returns it with the rest of
  the text; \<open>array_loop\<close> is the loop of \<open>JSONArray\<close>, entered at the first value with
  the values read so far, \<open>object_loop\<close> the loop of \<open>JSONObject\<close>, entered after the
  opening quote of a key with the items read so far. \<open>None\<close> is \<open>JSONDecodeError\<close>. The two
  comparisons of lengths before a loop goes on are not in the decoder: they make the
  recursion visibly decreasing and are never true (\<open>scan_shorter\<close> below). The limits
  of the interpreter (the depth of recursion, the number of digits \<open>int\<close> converts,
  memory) are outside the model.
\<close>

function scan_once :: "string \<Rightarrow> (json \<times> string) option"
  and array_loop :: "json list \<Rightarrow> string \<Rightarrow> (json \<times> string) option"
  and object_loop :: "(nat list \<times> json) list \<Rightarrow> string \<Rightarrow> (json \<times> string) option"
where
  "scan_once [] = None"
| "scan_once (c # r) =
     (if c = dquote then map_option (\<lambda>(t, r'). (JStr t, r')) (scanstring r)
      else if c = CHR ''{'' then
        (case skip_ws r of
           [] \<Rightarrow> None
         | n # r1 \<Rightarrow>
             if n = CHR ''}'' then Some (JObj [], r1)
             else if n = dquote then object_loop [] r1
             else None)
      else if c = CHR ''['' then
        (case skip_ws r of
           [] \<Rightarrow> None
         | n # r1 \<Rightarrow> if n = CHR '']'' then Some (JArr [], r1) else array_loop [] (n # r1))
      else if c = CHR ''n'' \<and> take 4 (c # r) = ''null'' then Some (JNull, drop 4 (c # r))
      else if c = CHR ''t'' \<and> take 4 (c # r) = ''true'' then Some (JBool True, drop 4 (c # r))
      else if c = CHR ''f'' \<and> take 5 (c # r) = ''false'' then Some (JBool False, drop 5 (c # r))
      else
        (case match_number (c # r) of
           Some res \<Rightarrow> Some res
         | None \<Rightarrow>
             if c = CHR ''N'' \<and> take 3 (c # r) = ''NaN''
             then Some (JFloat ''NaN'', drop 3 (c # r))
             else if c = CHR ''I'' \<and> take 8 (c # r) = ''Infinity''
             then Some (JFloat ''Infinity'', drop 8 (c # r))
             else if c = CHR ''-'' \<and> take 9 (c # r) = ''-Infinity''
             then Some (JFloat ''-Infinity'', drop 9 (c # r))
             else None))"
| "array_loop values s =
     (case scan_once s of
        None \<Rightarrow> None
      | Some (v, r) \<Rightarrow>
          if length s < length r then None
          else
            (case skip_ws r of
               [] \<Rightarrow> None
             | n # r1 \<Rightarrow>
                 if n = CHR '']'' then Some (JArr (values @ [v]), r1)
                 else if n \<noteq> CHR '','' then None
                 else array_loop (values @ [v]) (skip_ws r1)))"
| "object_loop pairs s =
     (case scanstring s of
        None \<Rightarrow> None
      | Some (key, r) \<Rightarrow>
          (case skip_ws r of
             [] \<Rightarrow> None
           | k # r1 \<Rightarrow>
               if k \<noteq> CHR '':'' then None
               else
                 (case scan_once (skip_ws r1) of
                    None \<Rightarrow> None
                  | Some (v, r2) \<Rightarrow>
                      if length (skip_ws r1) < length r2 then None
                      else
                        (case skip_ws r2 of
                           [] \<Rightarrow> None
                         | n # r3 \<Rightarrow>
                             if n = CHR ''}'' then Some (JObj (py_dict (pairs @ [(key, v)])), r3)
                             else if n \<noteq> CHR '','' then None
                             else
                               (case skip_ws r3 of
                                  [] \<Rightarrow> None
                                | q # r4 \<Rightarrow>
                                    if q = dquote then object_loop (pairs @ [(key, v)]) r4
                                    else None)))))"
  by pat_completeness auto
termination
proof (relation "measure (\<lambda>x. case x of Inl s \<Rightarrow> 2 * length s
    | Inr (Inl (vs, s)) \<Rightarrow> 2 * length s + 1 | Inr (Inr (ps, s)) \<Rightarrow> 2 * length s + 1)",
    goal_cases)
  case 1
  show ?case by simp
next
  case (2 c r n r1)
  then show ?case by (auto dest: skip_ws_Cons)
next
  case (3 c r n r1)
  then show ?case using skip_ws_le [of r] by simp
next
  case (4 vs s)
  show ?case by simp
next
  case (5 vs s x v r n r1)
  then show ?case using skip_ws_le [of r1] by (auto dest!: skip_ws_Cons)
next
  case (6 ps s x key r k r1)
  then show ?case using skip_ws_le [of r1] by (auto dest!: skip_ws_Cons scanstring_shorter)
next
  case (7 ps s x key r k r1 y v r2 n r3 q r4)
  then show ?case using skip_ws_le [of r1] by (auto dest!: skip_ws_Cons scanstring_shorter)
qed

text \<open>
  \<open>json.loads\<close>: one value, with white space before and after it and nothing else.
\<close>

definition json_loads :: "string \<Rightarrow> json option" where
  "json_loads s =
     (case scan_once (skip_ws s) of
        None \<Rightarrow> None
      | Some (obj, r) \<Rightarrow> if skip_ws r = [] then Some obj else None)"

section \<open>\<open>_load_data\<close>\<close>





section \<open>Evaluating the date helpers\<close>

lemmas date_eval =
  validate_date_def format_date_for_display_def strptime_def strftime_def fmt_mdy_def fmt_iso_def
  match_alts_def List.map_filter_def one_of_def is_digit_def py_int_def digit_val_def
  check_date_fields_def days_in_month_def is_leap_def pad2_def pad4_def digit_char_def

lemma validate_jan15: "validate_date ''01-15-24'' = Some ''2024-01-15''"
  by (simp add: date_eval)

lemma display_jan15: "format_date_for_display ''2024-01-15'' = ''01-15-24''"
  by (simp add: date_eval)

lemma validate_jan16: "validate_date ''01-16-24'' = Some ''2024-01-16''"
  by (simp add: date_eval)

lemma validate_empty: "validate_date [] = None"
  by (simp add: date_eval)

lemma validate_13_45_99: "validate_date ''13-45-99'' = None"
  by (simp add: date_eval)

lemma strftime_iso_nonempty: "strftime t fmt_iso \<noteq> []"
  by (cases t) (simp add: strftime_def fmt_iso_def pad4_def pad2_def)

lemma validate_date_nonempty: "validate_date s = Some d \<Longrightarrow> d \<noteq> []"
  by (auto simp: validate_date_def strftime_iso_nonempty split: option.splits)

lemma truthy_validate_date: "truthy (validate_date s) \<longleftrightarrow> validate_date s \<noteq> None"
  by (auto simp: validate_date_def strftime_iso_nonempty split: option.splits)

section \<open>The lookup loop\<close>

lemma find_request_Some:
  "find_request d rs = Some i \<Longrightarrow> i < length rs \<and> date (rs ! i) = d"
  by (induction rs arbitrary: i) (auto split: if_splits)

lemma find_request_None: "find_request d rs = None \<longleftrightarrow> d \<notin> date ` set rs"
  by (induction rs) auto

section \<open>The worked example of the specification\<close>

text \<open>
  C5. From a ledger with allowance 80, nothing used and no request, whatever the file
  holds: adding a full day on \<open>"01-15-24"\<close> gives 8 used hours and one request; adding
  the same date again, with any day type and note, is refused as a duplicate and changes
  nothing, so 8 hours stay used; editing the request to a half day gives 4 used hours;
  removing it gives 0 used hours and no request.
\<close>

theorem worked_example:
  "(let m0 = \<lparr>data = default_data\<lparr>yearly_pto_hours := 80\<rparr>, data_file = f\<rparr>;
        (r1, m1) = add_pto_request ''01-15-24'' False n1 m0;
        (r2, m2) = add_pto_request ''01-15-24'' h2 n2 m1;
        (r3, m3) = edit_pto_request ''01-15-24'' None (Some True) None m2;
        (r4, m4) = remove_pto_request ''01-15-24'' m3
    in error_of r1 = None \<and> used_pto_hours (data m1) = 8 \<and> length (pto_requests (data m1)) = 1 \<and>
       error_of r2 = Some DuplicateDate \<and> m2 = m1 \<and> used_pto_hours (data m2) = 8 \<and>
       error_of r3 = None \<and> used_pto_hours (data m3) = 4 \<and>
       error_of r4 = None \<and> used_pto_hours (data m4) = 0 \<and> pto_requests (data m4) = [])"
  by (simp add: add_pto_request_def edit_pto_request_def remove_pto_request_def save_data_def
      default_data_def edit_request_def pop_def validate_jan15 display_jan15 Let_def)

section \<open>The running total\<close>

lemma sum_hours_insort:
  "sum_list (map hours (insort_key date r rs)) = hours r + sum_list (map hours rs)"
  by (induction rs) auto

lemma sum_hours_sort: "sum_list (map hours (sort_key date rs)) = sum_list (map hours rs)"
  by (induction rs) (auto simp: sum_hours_insort)

lemma sum_hours_update:
  "i < length rs \<Longrightarrow>
   sum_list (map hours (rs[i := r])) = sum_list (map hours rs) - hours (rs ! i) + hours r"
  by (induction rs arbitrary: i) (auto split: nat.splits)

lemma sum_hours_pop:
  "i < length rs \<Longrightarrow> sum_list (map hours (pop i rs)) = sum_list (map hours rs) - hours (rs ! i)"
  unfolding pop_def by (induction rs arbitrary: i) (auto split: nat.splits simp: less_Suc_eq_0_disj)

lemma add_balanced: "balanced (data self) \<Longrightarrow> balanced (data (snd (add_pto_request s h n self)))"
  by (simp add: add_pto_request_def balanced_def save_data_def Let_def sum_hours_sort)

lemma edit_balanced:
  "balanced (data self) \<Longrightarrow> balanced (data (snd (edit_pto_request s nd h n self)))"
  by (auto simp: edit_pto_request_def balanced_def save_data_def Let_def sum_hours_sort
      sum_hours_update dest: find_request_Some split: option.splits)

lemma remove_balanced:
  "balanced (data self) \<Longrightarrow> balanced (data (snd (remove_pto_request s self)))"
  by (auto simp: remove_pto_request_def balanced_def save_data_def Let_def sum_hours_pop
      dest: find_request_Some split: option.splits)

lemma set_yearly_balanced:
  "balanced (data self) \<Longrightarrow> balanced (data (snd (set_yearly_pto_hours h self)))"
  by (simp add: set_yearly_pto_hours_def balanced_def save_data_def Let_def)

lemma apply_op_balanced: "balanced (data self) \<Longrightarrow> balanced (data (snd (apply_op x self)))"
  by (cases x) (simp_all add: add_balanced edit_balanced remove_balanced set_yearly_balanced)

lemma run_balanced: "balanced (data self) \<Longrightarrow> balanced (data (run ops self))"
  unfolding run_def by (induction ops arbitrary: self) (simp_all add: apply_op_balanced)

text \<open>
  C1. Whatever sequence of additions, edits and removals (and changes of the allowance)
  is applied to the default structure, and whatever the file held, the used hours of the
  result are the sum of the hours of the requests it holds.
\<close>

theorem used_hours_is_sum:
  "used_pto_hours (data (run ops \<lparr>data = default_data, data_file = f\<rparr>)) =
   sum_list (map hours (pto_requests (data (run ops \<lparr>data = default_data, data_file = f\<rparr>))))"
proof -
  have "balanced (data \<lparr>data = default_data, data_file = f\<rparr>)"
    by (simp add: balanced_def default_data_def)
  then have "balanced (data (run ops \<lparr>data = default_data, data_file = f\<rparr>))"
    by (rule run_balanced)
  then show ?thesis by (simp add: balanced_def)
qed

section \<open>Duplicate dates\<close>

text \<open>
  C2. When the date given to \<open>add_pto_request\<close> normalizes to the date of a request the
  ledger already holds, the call reports the duplicate and returns the manager as it
  was: allowance, used hours, requests and the file are unchanged.
\<close>

theorem add_duplicate_rejected:
  assumes "validate_date s = Some d"
      and "d \<in> date ` set (pto_requests (data self))"
  shows "add_pto_request s h n self = (Already_exists (format_date_for_display d), self) \<and>
         error_of (fst (add_pto_request s h n self)) = Some DuplicateDate"
  using assms
  by (simp add: add_pto_request_def validate_date_nonempty find_request_None)

theorem add_duplicate_rejected_witness:
  "add_pto_request ''01-15-24'' True ''again'' two_days = (Already_exists ''01-15-24'', two_days) \<and>
   error_of (fst (add_pto_request ''01-15-24'' True ''again'' two_days)) = Some DuplicateDate"
  using add_duplicate_rejected [of "''01-15-24''" "''2024-01-15''" two_days True "''again''"]
  by (simp add: validate_jan15 display_jan15 two_days_def jan15_def jan16_def)

text \<open>
  C10. \<open>edit_pto_request\<close> does not keep dates unique: on the ledger with one request on
  15 January 2024 and one on 16 January 2024, moving the first to the date of the second
  succeeds and leaves two requests dated 16 January 2024. The new date is normalized but
  never looked up among the requests.
\<close>

theorem edit_breaks_date_uniqueness:
  "\<exists>self s1 s2 d1 d2.
     validate_date s1 = Some d1 \<and> validate_date s2 = Some d2 \<and> d1 \<noteq> d2 \<and>
     map date (pto_requests (data self)) = [d1, d2] \<and>
     error_of (fst (edit_pto_request s1 (Some s2) None None self)) = None \<and>
     map date (pto_requests (data (snd (edit_pto_request s1 (Some s2) None None self)))) = [d2, d2]"
proof -
  have "validate_date ''01-15-24'' = Some ''2024-01-15'' \<and>
        validate_date ''01-16-24'' = Some ''2024-01-16'' \<and> ''2024-01-15'' \<noteq> ''2024-01-16'' \<and>
        map date (pto_requests (data two_days)) = [''2024-01-15'', ''2024-01-16''] \<and>
        error_of (fst (edit_pto_request ''01-15-24'' (Some ''01-16-24'') None None two_days)) = None \<and>
        map date (pto_requests (data (snd
          (edit_pto_request ''01-15-24'' (Some ''01-16-24'') None None two_days))))
          = [''2024-01-16'', ''2024-01-16'']"
    by (simp add: validate_jan15 validate_jan16 edit_pto_request_def edit_request_def
        save_data_def two_days_def jan15_def jan16_def Let_def)
  then show ?thesis
    by - (rule exI [where x = two_days], rule exI [where x = "''01-15-24''"],
      rule exI [where x = "''01-16-24''"], rule exI [where x = "''2024-01-15''"],
      rule exI [where x = "''2024-01-16''"], assumption)
qed

section \<open>The order of the requests\<close>

lemma sorted_pop: "sorted xs \<Longrightarrow> sorted (pop i xs)"
proof (induction xs arbitrary: i)
  case Nil
  then show ?case by (simp add: pop_def)
next
  case (Cons x xs)
  show ?case
  proof (cases i)
    case 0
    with Cons.prems show ?thesis by (simp add: pop_def)
  next
    case (Suc j)
    with Cons.prems Cons.IH [of j] show ?thesis
      by (auto simp: pop_def dest: in_set_takeD in_set_dropD)
  qed
qed

lemma map_pop: "map f (pop i xs) = pop i (map f xs)"
  by (simp add: pop_def take_map drop_map)

lemma add_sorted: "date_sorted self \<Longrightarrow> date_sorted (snd (add_pto_request s h n self))"
  by (simp add: add_pto_request_def date_sorted_def save_data_def Let_def)

lemma edit_sorted: "date_sorted self \<Longrightarrow> date_sorted (snd (edit_pto_request s nd h n self))"
  by (simp add: edit_pto_request_def date_sorted_def save_data_def Let_def split: option.splits)

lemma remove_sorted: "date_sorted self \<Longrightarrow> date_sorted (snd (remove_pto_request s self))"
  by (simp add: remove_pto_request_def date_sorted_def save_data_def Let_def map_pop sorted_pop
      split: option.splits)

lemma set_yearly_sorted: "date_sorted self \<Longrightarrow> date_sorted (snd (set_yearly_pto_hours h self))"
  by (simp add: set_yearly_pto_hours_def date_sorted_def save_data_def Let_def)

text \<open>
  C3. Each of the four mutating operations, applied to a manager whose requests are in
  ascending order of their stored dates, leaves them in ascending order of their stored
  dates (the order of the strings, which is the key \<open>sort\<close> uses).
\<close>

theorem mutation_keeps_sorted:
  "sorted (map date (pto_requests (data self))) \<Longrightarrow>
   sorted (map date (pto_requests (data (snd (apply_op x self)))))"
  using add_sorted edit_sorted remove_sorted set_yearly_sorted
  by (cases x) (simp_all add: date_sorted_def)

theorem mutation_keeps_sorted_witness:
  "sorted (map date (pto_requests (data two_days))) \<and>
   sorted (map date (pto_requests (data (snd
     (apply_op (Edit ''01-15-24'' (Some ''01-17-24'') None None) two_days)))))"
  using mutation_keeps_sorted [of two_days "Edit ''01-15-24'' (Some ''01-17-24'') None None"]
  by (simp add: two_days_def jan15_def jan16_def)

section \<open>Dates that do not parse\<close>

text \<open>
  C6, as the code has it. A date string that \<open>_validate_date\<close> cannot parse makes
  \<open>add_pto_request\<close> fail, and makes \<open>edit_pto_request\<close> fail when it is the lookup
  date; as a new date it makes \<open>edit_pto_request\<close> fail when it is not the empty string.
  Each failure reports an invalid date and returns the manager as it was, file included.
\<close>

theorem invalid_date_rejected:
  assumes "validate_date s = None"
  shows "add_pto_request s half nt self = (Invalid_date_format, self) \<and>
         edit_pto_request s new_date ehalf ent self = (Invalid_lookup_date_format, self) \<and>
         (s \<noteq> [] \<longrightarrow>
            edit_pto_request k (Some s) ehalf ent self =
              (if validate_date k = None then Invalid_lookup_date_format
               else Invalid_new_date_format, self))"
  using assms
  by (simp add: add_pto_request_def edit_pto_request_def Let_def truthy_validate_date)

theorem invalid_date_rejected_witness:
  "validate_date ''13-45-99'' = None \<and>
   add_pto_request ''13-45-99'' False [] two_days = (Invalid_date_format, two_days) \<and>
   edit_pto_request ''13-45-99'' None (Some True) None two_days =
     (Invalid_lookup_date_format, two_days) \<and>
   edit_pto_request ''01-15-24'' (Some ''13-45-99'') (Some True) None two_days =
     (Invalid_new_date_format, two_days)"
  using invalid_date_rejected
    [of "''13-45-99''" False "[]" two_days None "Some True" None "''01-15-24''"]
  by (simp add: validate_13_45_99 validate_jan15)

text \<open>
  The empty string does not parse, yet as a new date it is taken for no new date
  (\<open>if new_date:\<close>): the edit goes through, the hours change and the file is written.
\<close>

theorem empty_new_date_counterexample:
  "validate_date [] = None \<and>
   fst (edit_pto_request ''01-15-24'' (Some []) (Some True) None two_days) = Updated ''01-15-24'' \<and>
   used_pto_hours (data two_days) = 12 \<and>
   used_pto_hours (data (snd
     (edit_pto_request ''01-15-24'' (Some []) (Some True) None two_days))) = 8 \<and>
   data_file (snd (edit_pto_request ''01-15-24'' (Some []) (Some True) None two_days))
     \<noteq> data_file two_days"
  by (simp add: validate_empty validate_jan15 display_jan15 edit_pto_request_def edit_request_def
      save_data_def two_days_def jan15_def jan16_def Let_def)

section \<open>Parsing and formatting dates\<close>

































lemma mod_100_digits: "(n::nat) mod 100 div 10 mod 10 < 10" "n mod 100 mod 10 < 10"
  by simp_all









































section \<open>Reading back an encoded string\<close>

lemma lt16: "n < 16 \<Longrightarrow> n \<in> {0, 1, 2, 3, 4, 5, 6, 7, 8, 9, 10, 11, 12, 13, 14, 15::nat}"
  by (simp only: insert_iff empty_iff) arith

lemma hex_val_hex_digit: "n < 16 \<Longrightarrow> hex_val (hex_digit n) = Some n"
  by (drule lt16) (auto simp: hex_val_def hex_digit_def is_digit_def one_of_def digit_val_def)

lemma hex_val_zero: "hex_val (CHR ''0'') = Some 0"
  by (simp add: hex_val_def is_digit_def one_of_def digit_val_def)

lemma of_char_lt_256: "(of_char c :: nat) < 256"
  by (cases c) simp

lemma decode_u00: "decode_uXXXX [CHR ''0'', CHR ''0'', hex_digit (of_char c div 16), hex_digit (of_char c mod 16)]
   = Some (of_char c)"
proof -
  have "(of_char c :: nat) div 16 < 16" using of_char_lt_256 [of c] by arith
  then show ?thesis by (simp add: hex_val_zero hex_val_hex_digit)
qed

lemma scanstring_escape_char:
  "scanstring (escape_char c @ rest) = cons_char (of_char c) (scanstring rest)"
proof -
  consider "c = backslash" | "c = dquote" | "c \<noteq> backslash" "c \<noteq> dquote" "CHR '' '' \<le> c \<and> c \<le> CHR ''~''"
    | "c = CHR 0x08" | "c = CHR 0x0C" | "c = CHR 0x0A" | "c = CHR 0x0D" | "c = CHR 0x09"
    | "c \<noteq> backslash" "c \<noteq> dquote" "\<not> (CHR '' '' \<le> c \<and> c \<le> CHR ''~'')" "c \<noteq> CHR 0x08"
      "c \<noteq> CHR 0x0C" "c \<noteq> CHR 0x0A" "c \<noteq> CHR 0x0D" "c \<noteq> CHR 0x09"
    by blast
  then show ?thesis
  proof cases
    case 3
    then have "\<not> (of_char c :: nat) < 32" by (simp add: less_eq_char_def)
    with 3 show ?thesis by (simp add: escape_char_def)
  next
    case 9
    then have e: "escape_char c = backslash # CHR ''u'' #
        [CHR ''0'', CHR ''0'', hex_digit (of_char c div 16), hex_digit (of_char c mod 16)]"
      by (simp add: escape_char_def)
    have "\<not> (55296::nat) \<le> of_char c"
      using of_char_lt_256 [of c] by linarith
    then show ?thesis
      unfolding e by (simp add: decode_u00 del: decode_uXXXX.simps)
  qed (simp_all add: escape_char_def backslash_table_def)
qed

lemma scanstring_encoded:
  "scanstring (concat (map escape_char t) @ dquote # rest) = Some (codes t, rest)"
  by (induction t) (simp_all add: codes_def scanstring_escape_char cons_char_def)

lemma scan_once_string:
  "scan_once (encode_basestring_ascii t @ rest) = Some (JStr (codes t), rest)"
  by (simp add: encode_basestring_ascii_def scanstring_encoded)

section \<open>Reading back an integer\<close>

















lemma scan_once_bool:
  "scan_once ((if b then ''true'' else ''false'') @ rest) = Some (JBool b, rest)"
  by simp

section \<open>Reading back the document\<close>





lemma skip_ws_Cons_eq: "skip_ws (c # r) = (if is_ws c then skip_ws r else c # r)"
  by (simp add: skip_ws_def)




lemma length_after_int: "\<not> length (int_repr i @ rest) < length rest"
  by simp



lemma dumps_request_head: "\<exists>t. dumps_request r = CHR ''{'' # t"
  by (simp add: dumps_request_def)

lemma skip_ws_request: "skip_ws (dumps_request r @ rest) = dumps_request r @ rest"
  using dumps_request_head [of r] by (auto simp: skip_ws_Cons_eq is_ws_def)







section \<open>The scanner consumes text\<close>

text \<open>
  Every value the scanner returns comes with a rest that is shorter than the text it
  was given, so the comparisons of lengths in \<open>array_loop\<close> and \<open>object_loop\<close> never
  stop a loop.
\<close>

lemma int_part_split: "int_part s = Some (t, r) \<Longrightarrow> s = t @ r \<and> t \<noteq> []"
  by (auto simp: int_part_def Let_def split: list.splits if_splits)

lemma frac_part_split: "frac_part s = (t, r) \<Longrightarrow> s = t @ r"
  by (auto simp: frac_part_def split: list.splits if_splits)

lemma exp_part_split: "exp_part s = (t, r) \<Longrightarrow> s = t @ r"
  by (auto simp: exp_part_def Let_def split: list.splits if_splits)

lemma match_number_shorter:
  assumes "match_number s = Some (v, r)"
  shows "length r < length s"
proof -
  from assms obtain t1 r1 where 1: "int_part s = Some (t1, r1)"
    by (auto simp: match_number_def split: option.splits)
  obtain t2 r2 where 2: "frac_part r1 = (t2, r2)" by (cases "frac_part r1")
  obtain t3 r3 where 3: "exp_part r2 = (t3, r3)" by (cases "exp_part r2")
  from assms 1 2 3 have "r = r3" by (auto simp: match_number_def split: if_splits)
  with int_part_split [OF 1] frac_part_split [OF 2] exp_part_split [OF 3]
  show ?thesis by auto
qed

lemma drop_shorter: "0 < n \<Longrightarrow> length (drop n (c # r)) < length (c # r)"
  by simp

lemma scan_shorter:
  "scan_once s = Some (v, r) \<Longrightarrow> length r < length s"
  "array_loop vs s' = Some (v', r') \<Longrightarrow> length r' < length s'"
  "object_loop ps s'' = Some (v'', r'') \<Longrightarrow> length r'' < length s''"
proof (induction s and vs s' and ps s'' arbitrary: v r and v' r' and v'' r''
    rule: scan_once_array_loop_object_loop.induct)
  case 1
  then show ?case by simp
next
  case (2 c r0)
  note p = "2.prems"
  show ?case
  proof (cases "c = dquote")
    case True
    with p obtain t where "scanstring r0 = Some (t, r)" by auto
    from scanstring_shorter [OF this] show ?thesis by simp
  next
    case nq: False
    show ?thesis
    proof (cases "c = CHR ''{''")
      case True
      show ?thesis
      proof (cases "skip_ws r0")
        case Nil
        with p nq True show ?thesis by simp
      next
        case (Cons n r1)
        from skip_ws_Cons [OF Cons] have l: "length r1 < length r0" .
        from p nq True Cons consider "r = r1" | "n = dquote" "object_loop [] r1 = Some (v, r)"
          by (auto split: if_splits)
        then show ?thesis
        proof cases
          case 1
          with l show ?thesis by simp
        next
          case 2
          from "2.IH"(1) [OF nq True Cons _ 2(1) 2(2)] 2(1) l show ?thesis by simp
        qed
      qed
    next
      case nb: False
      show ?thesis
      proof (cases "c = CHR ''[''")
        case True
        show ?thesis
        proof (cases "skip_ws r0")
          case Nil
          with p nq nb True show ?thesis by simp
        next
          case (Cons n r1)
          from skip_ws_le [of r0] Cons have l: "length (n # r1) \<le> length r0" by simp
          from p nq nb True Cons consider "r = r1" | "n \<noteq> CHR '']''" "array_loop [] (n # r1) = Some (v, r)"
            by (auto split: if_splits)
          then show ?thesis
          proof cases
            case 1
            with l show ?thesis by simp
          next
            case 2
            from "2.IH"(2) [OF nq nb True Cons 2(1) 2(2)] l show ?thesis by simp
          qed
        qed
      next
        case na: False
        from p nq nb na consider "length r \<le> length r0"
          | "match_number (c # r0) = Some (v, r)"
          by (auto split: if_splits option.splits)
        then show ?thesis
        proof cases
          case 1
          then show ?thesis by simp
        next
          case 2
          from match_number_shorter [OF this] show ?thesis .
        qed
      qed
    qed
  qed
next
  case (3 vs s)
  from "3.prems" obtain v0 r0 where s: "scan_once s = Some (v0, r0)"
    by (auto split: option.splits)
  from "3.IH"(1) [OF s] have l0: "length r0 < length s" .
  show ?case
  proof (cases "skip_ws r0")
    case Nil
    with "3.prems" s show ?thesis by (simp split: if_splits)
  next
    case (Cons n r1)
    from skip_ws_Cons [OF Cons] have l1: "length r1 < length r0" .
    from "3.prems" s Cons l0 consider "r' = r1"
      | "n \<noteq> CHR '']''" "n = CHR '',''" "array_loop (vs @ [v0]) (skip_ws r1) = Some (v', r')"
      by (auto split: if_splits)
    then show ?thesis
    proof cases
      case 1
      with l0 l1 show ?thesis by simp
    next
      case 2
      have "\<not> n \<noteq> CHR '',''" using 2(2) by simp
      from "3.IH"(2) [OF s refl _ Cons 2(1) this 2(3)] l0
      have "length r' < length (skip_ws r1)" by simp
      with skip_ws_le [of r1] l0 l1 show ?thesis by simp
    qed
  qed
next
  case (4 ps s)
  from "4.prems" obtain key r0 where k: "scanstring s = Some (key, r0)"
    by (auto split: option.splits)
  from scanstring_shorter [OF k] have l0: "length r0 < length s" .
  from "4.prems" k obtain c r1 where c: "skip_ws r0 = c # r1"
    by (cases "skip_ws r0") auto
  from skip_ws_Cons [OF c] have l1: "length r1 < length r0" .
  from "4.prems" k c have colon: "\<not> c \<noteq> CHR '':''" by (auto split: if_splits)
  from "4.prems" k c colon obtain v0 r2 where v: "scan_once (skip_ws r1) = Some (v0, r2)"
    by (auto split: option.splits)
  from "4.IH"(1) [OF k refl c colon v] have l2: "length r2 < length (skip_ws r1)" .
  then have nl: "\<not> length (skip_ws r1) < length r2" by simp
  from "4.prems" k c colon v nl obtain n r3 where n: "skip_ws r2 = n # r3"
    by (cases "skip_ws r2") auto
  from skip_ws_Cons [OF n] have l3: "length r3 < length r2" .
  from l0 l1 l2 l3 skip_ws_le [of r1] have l: "length r3 < length s" by simp
  from "4.prems" k c colon v nl n consider "r'' = r3"
    | "n \<noteq> CHR ''}''" "n = CHR '',''" "\<exists>q r4. skip_ws r3 = q # r4 \<and> q = dquote \<and>
        object_loop (ps @ [(key, v0)]) r4 = Some (v'', r'')"
    by (auto split: if_splits list.splits)
  then show ?case
  proof cases
    case 1
    with l show ?thesis by simp
  next
    case 2
    then obtain q r4 where q: "skip_ws r3 = q # r4" "q = dquote"
      "object_loop (ps @ [(key, v0)]) r4 = Some (v'', r'')" by blast
    have "\<not> n \<noteq> CHR '',''" using 2(2) by simp
    from "4.IH"(2) [OF k refl c colon v refl nl n 2(1) this q]
    have "length r'' < length r4" .
    with skip_ws_Cons [OF q(1)] l show ?thesis by simp
  qed
qed

section \<open>Saving and loading\<close>






lemma json_loads_empty: "json_loads [] = None"
  by (simp add: json_loads_def skip_ws_def)





end
